theory Spec2Isabelle
  imports Complex_Main
begin

section \<open>S3DIS segmentation dataset: composition of per-area datasets\<close>

text \<open>
  The development embeds \<^verbatim>\<open>mmdet3d/datasets/s3dis_dataset.py\<close>: the inner dataset
  \<^verbatim>\<open>_S3DISSegDataset\<close> of one area and the wrapper \<^verbatim>\<open>S3DISSegDataset\<close> that
  normalises its per-area arguments, builds one inner dataset per annotation file and
  concatenates their scene records, sampling indices and label weights.

  Exceptions are values of \<open>error + 'a\<close>. Index arrays hold mathematical integers and the
  cast \<^verbatim>\<open>astype(np.int32)\<close> is written out as two's-complement truncation to 32 bits.
  Label weights are floating-point numbers in the source; they are idealised as reals,
  so rounding (including the final \<^verbatim>\<open>astype(np.float32)\<close>) is not part of the model.
\<close>

subsection \<open>Data model\<close>

datatype error = NotImplementedError | ValueError | IndexError | TypeError

text \<open>One entry of \<^verbatim>\<open>data_infos\<close>: the two paths a scene carries.\<close>

record scene_record =
  pts_path :: string
  pts_semantic_mask_path :: string

text \<open>
  \<^verbatim>\<open>self.label_weight\<close>: a vector, or the scalar \<^verbatim>\<open>nan\<close> that numpy's \<^verbatim>\<open>mean\<close>
  yields for an array without rows.
\<close>

datatype weights = Vec "real list" | NaN

text \<open>
  The attributes of a dataset object that the wrapper reads and writes. \<open>flag\<close> is the
  group flag of the sampler, \<open>None\<close> while it has not been set.
\<close>

record dataset =
  data_infos :: "scene_record list"
  scene_idxs :: "int list"
  label_weight :: weights
  flag :: "nat list option"

text \<open>
  The values the constructor arguments \<^verbatim>\<open>ann_files\<close>, \<^verbatim>\<open>scene_idxs\<close> and
  \<^verbatim>\<open>label_weights\<close> can take: \<^verbatim>\<open>None\<close>, a string, a Python number (\<open>PInt\<close>,
  \<open>PFloat\<close>), a numpy scalar (\<open>PNpInt\<close>, \<open>PNpFloat\<close>), a list, a tuple or a numpy
  array (an array of arrays stands for a two-dimensional array). The entries of a
  numeric array are numbers of either kind; the code only asks of an entry whether it is
  a string or a sequence.
\<close>

datatype pyval =
    PNone
  | PStr string
  | PInt int
  | PFloat real
  | PNpInt int
  | PNpFloat real
  | PList "pyval list"
  | PTuple "pyval list"
  | PArray "pyval list"

subsection \<open>Python and numpy primitives\<close>

text \<open>\<^verbatim>\<open>x is None\<close>, \<^verbatim>\<open>isinstance(x, str)\<close>, \<^verbatim>\<open>isinstance(x, (list, tuple))\<close> and
  \<^verbatim>\<open>isinstance(x, (list, tuple, np.ndarray))\<close>.\<close>

fun is_None :: "pyval \<Rightarrow> bool" where
  "is_None PNone = True"
| "is_None _ = False"

fun is_str :: "pyval \<Rightarrow> bool" where
  "is_str (PStr _) = True"
| "is_str _ = False"

fun is_list_tuple :: "pyval \<Rightarrow> bool" where
  "is_list_tuple (PList _) = True"
| "is_list_tuple (PTuple _) = True"
| "is_list_tuple _ = False"

fun is_list_tuple_ndarray :: "pyval \<Rightarrow> bool" where
  "is_list_tuple_ndarray (PList _) = True"
| "is_list_tuple_ndarray (PTuple _) = True"
| "is_list_tuple_ndarray (PArray _) = True"
| "is_list_tuple_ndarray _ = False"

text \<open>A Python number or a numpy scalar.\<close>

fun is_number :: "pyval \<Rightarrow> bool" where
  "is_number (PInt _) = True"
| "is_number (PFloat _) = True"
| "is_number (PNpInt _) = True"
| "is_number (PNpFloat _) = True"
| "is_number _ = False"

text \<open>\<^verbatim>\<open>xs[i]\<close> on a Python list for \<open>i \<ge> 0\<close>: \<^verbatim>\<open>IndexError\<close> out of range.\<close>

definition list_getitem :: "'a list \<Rightarrow> nat \<Rightarrow> error + 'a" where
  "list_getitem xs i = (if i < length xs then Inr (xs ! i) else Inl IndexError)"

text \<open>
  \<^verbatim>\<open>x[i]\<close> for \<open>i \<ge> 0\<close>: a sequence is indexed, a string yields the one-character
  string, \<^verbatim>\<open>None\<close> and Python numbers are not subscriptable (\<^verbatim>\<open>TypeError\<close>), and a
  numpy scalar rejects every index (\<^verbatim>\<open>IndexError\<close>).
\<close>

fun py_getitem :: "pyval \<Rightarrow> nat \<Rightarrow> error + pyval" where
  "py_getitem (PList xs) i = list_getitem xs i"
| "py_getitem (PTuple xs) i = list_getitem xs i"
| "py_getitem (PArray xs) i = list_getitem xs i"
| "py_getitem (PStr s) i = (if i < length s then Inr (PStr [s ! i]) else Inl IndexError)"
| "py_getitem PNone i = Inl TypeError"
| "py_getitem (PInt _) i = Inl TypeError"
| "py_getitem (PFloat _) i = Inl TypeError"
| "py_getitem (PNpInt _) i = Inl IndexError"
| "py_getitem (PNpFloat _) i = Inl IndexError"

text \<open>\<^verbatim>\<open>len(x)\<close>.\<close>

fun py_len :: "pyval \<Rightarrow> error + nat" where
  "py_len (PList xs) = Inr (length xs)"
| "py_len (PTuple xs) = Inr (length xs)"
| "py_len (PArray xs) = Inr (length xs)"
| "py_len (PStr s) = Inr (length s)"
| "py_len PNone = Inl TypeError"
| "py_len (PInt _) = Inl TypeError"
| "py_len (PFloat _) = Inl TypeError"
| "py_len (PNpInt _) = Inl TypeError"
| "py_len (PNpFloat _) = Inl TypeError"

text \<open>\<^verbatim>\<open>astype(np.int32)\<close> on one integer: the low 32 bits, read as two's complement.\<close>

definition astype_int32 :: "int \<Rightarrow> int" where
  "astype_int32 x = signed_take_bit 31 x"

text \<open>\<^verbatim>\<open>np.unique\<close>: the sorted distinct values.\<close>

definition np_unique :: "int list \<Rightarrow> int list" where
  "np_unique xs = sort (remdups xs)"

text \<open>\<^verbatim>\<open>.max()\<close> of a one-dimensional array: \<^verbatim>\<open>ValueError\<close> on a zero-size array.\<close>

fun np_max :: "int list \<Rightarrow> error + int" where
  "np_max [] = Inl ValueError"
| "np_max (x # xs) = Inr (fold max xs x)"

subsection \<open>Concatenation of the per-area attributes\<close>

text \<open>\<^verbatim>\<open>concat_data_infos\<close>: the nested comprehension, stored in \<^verbatim>\<open>self.data_infos\<close>.\<close>

fun flatten_infos :: "'a list list \<Rightarrow> 'a list" where
  "flatten_infos [] = []"
| "flatten_infos (one_data_infos # rest) = one_data_infos @ flatten_infos rest"

definition concat_data_infos :: "scene_record list list \<Rightarrow> dataset \<Rightarrow> dataset" where
  "concat_data_infos infos self = self\<lparr>data_infos := flatten_infos infos\<rparr>"

text \<open>
  \<^verbatim>\<open>concat_scene_idxs\<close>: the loop body appends \<^verbatim>\<open>one_scene_idxs + offset\<close> to
  \<^verbatim>\<open>self.scene_idxs\<close>, casts the result to \<^verbatim>\<open>int32\<close> and recomputes the offset as
  \<^verbatim>\<open>np.unique(self.scene_idxs).max() + 1\<close>; the maximum raises on an empty array.
\<close>

fun concat_scene_idxs_loop :: "int list list \<Rightarrow> int \<Rightarrow> dataset \<Rightarrow> error + dataset" where
  "concat_scene_idxs_loop [] offset self = Inr self"
| "concat_scene_idxs_loop (one_scene_idxs # rest) offset self =
     (let self' = self\<lparr>scene_idxs :=
            map astype_int32 (scene_idxs self @ map (\<lambda>x. x + offset) one_scene_idxs)\<rparr>
      in case np_max (np_unique (scene_idxs self')) of
           Inl e \<Rightarrow> Inl e
         | Inr m \<Rightarrow> concat_scene_idxs_loop rest (m + 1) self')"

definition concat_scene_idxs :: "int list list \<Rightarrow> dataset \<Rightarrow> error + dataset" where
  "concat_scene_idxs idxs self = concat_scene_idxs_loop idxs 0 (self\<lparr>scene_idxs := []\<rparr>)"

text \<open>
  \<^verbatim>\<open>concat_label_weight\<close>: \<^verbatim>\<open>np.array(label_weights).mean(0)\<close>. The rows must have
  one shape to form an array (current numpy raises \<^verbatim>\<open>ValueError\<close> otherwise); a list
  of scalars, also the empty list, is one-dimensional and its mean is a scalar, here
  \<^verbatim>\<open>nan\<close>. \<^verbatim>\<open>mean(0)\<close> adds the rows up along axis 0 and divides by their number.
\<close>

fun vec_rows :: "weights list \<Rightarrow> real list list option" where
  "vec_rows [] = Some []"
| "vec_rows (Vec r # ws) = map_option ((#) r) (vec_rows ws)"
| "vec_rows (NaN # ws) = None"

fun np_mean0 :: "real list list \<Rightarrow> real list" where
  "np_mean0 [] = []"
| "np_mean0 (r # rs) =
     map (\<lambda>s. s / real (length (r # rs))) (foldl (\<lambda>acc row. map2 (+) acc row) r rs)"

definition concat_label_weight :: "weights list \<Rightarrow> dataset \<Rightarrow> error + dataset" where
  "concat_label_weight label_weights self =
     (if list_all (\<lambda>w. w = NaN) label_weights then Inr (self\<lparr>label_weight := NaN\<rparr>)
      else case vec_rows label_weights of
             None \<Rightarrow> Inl ValueError
           | Some rows \<Rightarrow>
               if list_all (\<lambda>r. length r = length (hd rows)) rows
               then Inr (self\<lparr>label_weight := Vec (np_mean0 rows)\<rparr>)
               else Inl ValueError)"

subsection \<open>Normalisation of the per-area arguments\<close>

text \<open>\<^verbatim>\<open>_duplicate_to_list\<close>: \<^verbatim>\<open>[x for _ in range(num)]\<close>.\<close>

definition duplicate_to_list :: "'a \<Rightarrow> nat \<Rightarrow> 'a list" where
  "duplicate_to_list x num = map (\<lambda>_. x) [0..<num]"

definition check_ann_files :: "pyval \<Rightarrow> pyval" where
  "check_ann_files ann_file =
     (if \<not> is_list_tuple ann_file then PList (duplicate_to_list ann_file 1) else ann_file)"

definition check_scene_idxs :: "pyval \<Rightarrow> nat \<Rightarrow> error + pyval" where
  "check_scene_idxs scene_idx num =
     (if is_None scene_idx then Inr (PList (duplicate_to_list scene_idx num))
      else if is_str scene_idx then Inr (PList (duplicate_to_list scene_idx num))
      else case py_getitem scene_idx 0 of
             Inl e \<Rightarrow> Inl e
           | Inr first \<Rightarrow>
               if is_str first then Inr scene_idx
               else if is_list_tuple_ndarray first then Inr scene_idx
               else Inr (PList (duplicate_to_list scene_idx num)))"

definition check_label_weights :: "pyval \<Rightarrow> nat \<Rightarrow> error + pyval" where
  "check_label_weights label_weight' num =
     (if is_None label_weight' then Inr (PList (duplicate_to_list label_weight' num))
      else if is_str label_weight' then Inr (PList (duplicate_to_list label_weight' num))
      else case py_getitem label_weight' 0 of
             Inl e \<Rightarrow> Inl e
           | Inr first \<Rightarrow>
               if is_str first then Inr label_weight'
               else if is_list_tuple_ndarray first then Inr label_weight'
               else Inr (PList (duplicate_to_list label_weight' num)))"

subsection \<open>Construction\<close>

text \<open>
  The code outside the source file that construction runs: the loader of the scene
  records of one annotation file, the method \<^verbatim>\<open>get_scene_idxs_and_label_weight\<close> of
  the base class \<^verbatim>\<open>Custom3DSegDataset\<close>, which resolves a sampling index and a weight
  vector against the loaded records, and the value \<^verbatim>\<open>_set_group_flag\<close> stores. They
  are closed over the settings every area shares (data root, pipeline, classes, palette,
  modality, ignore index), which the constructors pass on unchanged.
\<close>

record collaborators =
  load_annotations :: "pyval \<Rightarrow> scene_record list"
  base_get_scene_idxs_and_label_weight ::
    "scene_record list \<Rightarrow> bool \<Rightarrow> pyval \<Rightarrow> pyval \<Rightarrow> error + (int list \<times> real list)"
  group_flag :: "dataset \<Rightarrow> nat list"

text \<open>
  \<^verbatim>\<open>_S3DISSegDataset.get_scene_idxs_and_label_weight\<close>: training without re-sampled
  scene indexes is refused, everything else is left to the base class.
\<close>

definition get_scene_idxs_and_label_weight ::
  "collaborators \<Rightarrow> scene_record list \<Rightarrow> bool \<Rightarrow> pyval \<Rightarrow> pyval \<Rightarrow> error + (int list \<times> real list)"
where
  "get_scene_idxs_and_label_weight c infos test_mode scene_idx label_weight' =
     (if \<not> test_mode \<and> is_None scene_idx then Inl NotImplementedError
      else base_get_scene_idxs_and_label_weight c infos test_mode scene_idx label_weight')"

text \<open>
  Modelled from the spec: the constructor of the base class \<^verbatim>\<open>Custom3DSegDataset\<close>
  (\<^verbatim>\<open>custom_3d_seg.py\<close> is not among the sources). A partition dataset reads the scene
  records of its annotation source from the metadata store and resolves its sampling
  index and its weights against them, through the method the subclass overrides.
\<close>

definition Custom3DSegDataset_init ::
  "collaborators \<Rightarrow> pyval \<Rightarrow> bool \<Rightarrow> pyval \<Rightarrow> pyval \<Rightarrow> error + dataset"
where
  "Custom3DSegDataset_init c ann_file test_mode scene_idx label_weight' =
     (let infos = load_annotations c ann_file
      in case get_scene_idxs_and_label_weight c infos test_mode scene_idx label_weight' of
           Inl e \<Rightarrow> Inl e
         | Inr (idxs, w) \<Rightarrow>
             Inr \<lparr>data_infos = infos, scene_idxs = idxs, label_weight = Vec w, flag = None\<rparr>)"

text \<open>\<^verbatim>\<open>_S3DISSegDataset.__init__\<close> hands every argument to the base class.\<close>

definition inner_S3DISSegDataset_init ::
  "collaborators \<Rightarrow> pyval \<Rightarrow> bool \<Rightarrow> pyval \<Rightarrow> pyval \<Rightarrow> error + dataset"
where
  "inner_S3DISSegDataset_init c ann_file test_mode scene_idx label_weight' =
     Custom3DSegDataset_init c ann_file test_mode scene_idx label_weight'"

text \<open>
  Modelled from the spec: \<^verbatim>\<open>_set_group_flag\<close> (inherited, not among the sources)
  computes and caches the grouping flag and changes nothing else.
\<close>

definition set_group_flag :: "collaborators \<Rightarrow> dataset \<Rightarrow> dataset" where
  "set_group_flag c self = self\<lparr>flag := Some (group_flag c self)\<rparr>"

text \<open>
  The list comprehension of \<^verbatim>\<open>S3DISSegDataset.__init__\<close> that builds one inner
  dataset per annotation file, left to right. It returns the datasets built and the
  exception that stopped it, if any.
\<close>

fun build_datasets ::
  "collaborators \<Rightarrow> pyval \<Rightarrow> bool \<Rightarrow> pyval \<Rightarrow> pyval \<Rightarrow> nat list \<Rightarrow> dataset list \<times> error option"
where
  "build_datasets c ann_files test_mode idxs ws [] = ([], None)"
| "build_datasets c ann_files test_mode idxs ws (i # rest) =
     (case py_getitem ann_files i of
        Inl e \<Rightarrow> ([], Some e)
      | Inr a \<Rightarrow>
     (case py_getitem idxs i of
        Inl e \<Rightarrow> ([], Some e)
      | Inr s \<Rightarrow>
     (case py_getitem ws i of
        Inl e \<Rightarrow> ([], Some e)
      | Inr w \<Rightarrow>
     (case inner_S3DISSegDataset_init c a test_mode s w of
        Inl e \<Rightarrow> ([], Some e)
      | Inr dst \<Rightarrow>
          (case build_datasets c ann_files test_mode idxs ws rest of
             (dsts, r) \<Rightarrow> (dst # dsts, r))))))"

text \<open>
  The three concatenations as \<^verbatim>\<open>__init__\<close> runs them on \<^verbatim>\<open>self\<close> once the inner
  datasets exist, and after them the group flag, which is set outside evaluation mode.
\<close>

definition concat_attributes :: "dataset list \<Rightarrow> dataset \<Rightarrow> error + dataset" where
  "concat_attributes datasets self =
     (case concat_scene_idxs (map scene_idxs datasets)
             (concat_data_infos (map data_infos datasets) self) of
        Inl e \<Rightarrow> Inl e
      | Inr self' \<Rightarrow> concat_label_weight (map label_weight datasets) self')"

definition merge_datasets :: "collaborators \<Rightarrow> bool \<Rightarrow> dataset list \<Rightarrow> dataset \<Rightarrow> error + dataset" where
  "merge_datasets c test_mode datasets self =
     (case concat_attributes datasets self of
        Inl e \<Rightarrow> Inl e
      | Inr self' \<Rightarrow> Inr (if \<not> test_mode then set_group_flag c self' else self'))"

text \<open>
  The outcome of a construction: the inner datasets the comprehension had built when
  construction ended, and the object or the exception raised.
\<close>

record construction =
  built :: "dataset list"
  outcome :: "error + dataset"

text \<open>
  The first part of \<^verbatim>\<open>S3DISSegDataset.__init__\<close>: the three checks and
  \<^verbatim>\<open>super().__init__\<close> on the first entries. It yields the normalised arguments and
  \<^verbatim>\<open>self\<close>.
\<close>

definition S3DISSegDataset_init_self ::
  "collaborators \<Rightarrow> pyval \<Rightarrow> bool \<Rightarrow> pyval \<Rightarrow> pyval \<Rightarrow> error + (pyval \<times> pyval \<times> pyval \<times> nat \<times> dataset)"
where
  "S3DISSegDataset_init_self c ann_files test_mode scene_idx label_weights =
     (let ann_files' = check_ann_files ann_files
      in case py_len ann_files' of
           Inl e \<Rightarrow> Inl e
         | Inr n \<Rightarrow>
        (case check_scene_idxs scene_idx n of
           Inl e \<Rightarrow> Inl e
         | Inr idxs \<Rightarrow>
        (case check_label_weights label_weights n of
           Inl e \<Rightarrow> Inl e
         | Inr ws \<Rightarrow>
        (case py_getitem ann_files' 0 of
           Inl e \<Rightarrow> Inl e
         | Inr a0 \<Rightarrow>
        (case py_getitem idxs 0 of
           Inl e \<Rightarrow> Inl e
         | Inr s0 \<Rightarrow>
        (case py_getitem ws 0 of
           Inl e \<Rightarrow> Inl e
         | Inr w0 \<Rightarrow>
        (case inner_S3DISSegDataset_init c a0 test_mode s0 w0 of
           Inl e \<Rightarrow> Inl e
         | Inr self \<Rightarrow> Inr (ann_files', idxs, ws, n, self))))))))"

text \<open>\<^verbatim>\<open>S3DISSegDataset.__init__\<close>.\<close>

definition S3DISSegDataset_init ::
  "collaborators \<Rightarrow> pyval \<Rightarrow> bool \<Rightarrow> pyval \<Rightarrow> pyval \<Rightarrow> construction"
where
  "S3DISSegDataset_init c ann_files test_mode scene_idx label_weights =
     (case S3DISSegDataset_init_self c ann_files test_mode scene_idx label_weights of
        Inl e \<Rightarrow> \<lparr>built = [], outcome = Inl e\<rparr>
      | Inr (ann_files', idxs, ws, n, self) \<Rightarrow>
          (case build_datasets c ann_files' test_mode idxs ws [0..<n] of
             (datasets, Some e) \<Rightarrow> \<lparr>built = datasets, outcome = Inl e\<rparr>
           | (datasets, None) \<Rightarrow>
               \<lparr>built = datasets, outcome = merge_datasets c test_mode datasets self\<rparr>))"

subsection \<open>The merge as the specification words it\<close>

text \<open>
  The fold of the specification over the partitions, carrying the merged index and the
  next offset: the offset starts at 0, is added to every value of a partition before
  the values are appended, and becomes one plus the maximum of the merged index. Where
  the merged index is empty there is no maximum and the fold has no result.
\<close>

fun spec_merge_step :: "(int list \<times> int) option \<Rightarrow> int list \<Rightarrow> (int list \<times> int) option" where
  "spec_merge_step None part = None"
| "spec_merge_step (Some (merged, offset)) part =
     (let merged' = merged @ map (\<lambda>v. v + offset) part
      in if merged' = [] then None else Some (merged', 1 + Max (set merged')))"

definition spec_merged_index :: "int list list \<Rightarrow> int list option" where
  "spec_merged_index parts = map_option fst (foldl spec_merge_step (Some ([], 0)) parts)"

text \<open>The element-wise arithmetic mean of \<open>N\<close> vectors of length \<open>L\<close>, entry by entry.\<close>

definition spec_mean :: "real list list \<Rightarrow> nat \<Rightarrow> real list" where
  "spec_mean rows L =
     map (\<lambda>j. (\<Sum>i<length rows. rows ! i ! j) / real (length rows)) [0..<L]"

text \<open>Where partition \<open>k\<close> starts in the merged scene list.\<close>

definition start_of :: "'a list list \<Rightarrow> nat \<Rightarrow> nat" where
  "start_of parts k = sum_list (map length (take k parts))"

text \<open>Values an \<^verbatim>\<open>int32\<close> array can hold.\<close>

definition is_int32 :: "int \<Rightarrow> bool" where
  "is_int32 x \<longleftrightarrow> - (2 ^ 31) \<le> x \<and> x < 2 ^ 31"

text \<open>
  A sampling index is valid for a partition when every value is a non-negative offset
  below the number of scene records; it covers the last scene when, in addition, the
  offset of the last record occurs in it.
\<close>

definition valid_index :: "int list \<Rightarrow> 'a list \<Rightarrow> bool" where
  "valid_index idx infos = list_all (\<lambda>x. 0 \<le> x \<and> x < int (length infos)) idx"

definition covers_last :: "int list \<Rightarrow> 'a list \<Rightarrow> bool" where
  "covers_last idx infos \<longleftrightarrow> valid_index idx infos \<and> int (length infos) - 1 \<in> set idx"

text \<open>
  Concrete data for the worked examples: the record of a scene as the S3DIS info files
  name it, and an object whose attributes have not been merged yet.
\<close>

definition scene :: "string \<Rightarrow> scene_record" where
  "scene name = \<lparr>pts_path = ''points/'' @ name @ ''.bin'',
                 pts_semantic_mask_path = ''semantic_mask/'' @ name @ ''.bin''\<rparr>"

definition unset :: dataset where
  "unset = \<lparr>data_infos = [], scene_idxs = [], label_weight = NaN, flag = None\<rparr>"

section \<open>Properties\<close>

subsection \<open>Auxiliary facts about the numpy primitives\<close>

lemma np_max_eq: "xs \<noteq> [] \<Longrightarrow> np_max xs = Inr (Max (set xs))"
proof (cases xs)
  case Nil
  assume "xs \<noteq> []"
  with Nil show ?thesis by simp
next
  case (Cons a list)
  then show ?thesis using Max.set_eq_fold[of a list] by simp
qed

lemma set_np_unique: "set (np_unique xs) = set xs"
  by (simp add: np_unique_def)

lemma np_unique_Nil: "np_unique xs = [] \<longleftrightarrow> xs = []"
  using set_np_unique[of xs] by (metis set_empty)

lemma np_max_unique:
  "np_max (np_unique xs) = (if xs = [] then Inl ValueError else Inr (Max (set xs)))"
  using np_max_eq[of "np_unique xs"]
  by (simp add: np_unique_Nil set_np_unique) (simp add: np_unique_def)

lemma astype_int32_id: "is_int32 x \<Longrightarrow> astype_int32 x = x"
  unfolding is_int32_def astype_int32_def by (rule signed_take_bit_int_eq_self) simp_all

lemma astype_int32_le: "- (2 ^ 31) \<le> x \<Longrightarrow> astype_int32 x \<le> x"
proof (cases "x < 2 ^ 31")
  case True
  assume "- (2 ^ 31) \<le> x"
  with True show ?thesis by (simp add: astype_int32_id is_int32_def)
next
  case False
  have "astype_int32 x < 2 ^ 31"
    unfolding astype_int32_def by (rule signed_take_bit_int_less_exp)
  with False show ?thesis by linarith
qed

lemma astype_int32_range: "is_int32 (astype_int32 x)"
  unfolding is_int32_def astype_int32_def
  using signed_take_bit_int_less_exp[of 31 x] signed_take_bit_int_greater_eq_minus_exp[of 31 x]
  by simp

lemma duplicate_to_list_replicate: "duplicate_to_list x num = replicate num x"
  by (simp add: duplicate_to_list_def map_replicate_const)

subsection \<open>The loop of \<^verbatim>\<open>concat_scene_idxs\<close>\<close>

lemma loop_step_Inr:
  assumes "concat_scene_idxs_loop (one # rest) offset self = Inr self'"
  defines "m \<equiv> map astype_int32 (scene_idxs self @ map (\<lambda>x. x + offset) one)"
  shows "m \<noteq> [] \<and>
    concat_scene_idxs_loop rest (Max (set m) + 1) (self\<lparr>scene_idxs := m\<rparr>) = Inr self'"
proof -
  have eq: "concat_scene_idxs_loop (one # rest) offset self =
        (case np_max (np_unique m) of Inl e \<Rightarrow> Inl e
         | Inr mx \<Rightarrow> concat_scene_idxs_loop rest (mx + 1) (self\<lparr>scene_idxs := m\<rparr>))"
    unfolding m_def by (simp only: concat_scene_idxs_loop.simps Let_def) simp
  show ?thesis
  proof (cases "m = []")
    case True
    with eq assms(1) show ?thesis by (simp add: np_max_unique)
  next
    case False
    with eq assms(1) show ?thesis by (simp add: np_max_unique)
  qed
qed

lemma loop_succeeds:
  "scene_idxs self \<noteq> [] \<Longrightarrow> \<exists>self'. concat_scene_idxs_loop idxs offset self = Inr self'"
proof (induction idxs arbitrary: offset self)
  case Nil
  then show ?case by simp
next
  case (Cons one rest)
  let ?s = "self\<lparr>scene_idxs := map astype_int32 (scene_idxs self @ map (\<lambda>x. x + offset) one)\<rparr>"
  have ne: "scene_idxs ?s \<noteq> []" using Cons.prems by simp
  then have "np_max (np_unique (scene_idxs ?s)) = Inr (Max (set (scene_idxs ?s)))"
    by (simp add: np_max_unique)
  moreover obtain self' where
    "concat_scene_idxs_loop rest (Max (set (scene_idxs ?s)) + 1) ?s = Inr self'"
    using Cons.IH[OF ne] by blast
  ultimately show ?case by (simp add: Let_def)
qed

lemma loop_only_scene_idxs:
  "concat_scene_idxs_loop idxs offset self = Inr self' \<Longrightarrow>
   self' = self\<lparr>scene_idxs := scene_idxs self'\<rparr>"
proof (induction idxs arbitrary: offset self)
  case Nil
  then show ?case by simp
next
  case (Cons one rest)
  from loop_step_Inr[OF Cons.prems] Cons.IH show ?case
    by (metis (no_types, lifting) dataset.surjective dataset.update_convs(2))
qed

lemma concat_scene_idxs_only_scene_idxs:
  assumes "concat_scene_idxs idxs self = Inr self'"
  shows "self' = self\<lparr>scene_idxs := scene_idxs self'\<rparr>"
proof -
  from assms have "self' = (self\<lparr>scene_idxs := []\<rparr>)\<lparr>scene_idxs := scene_idxs self'\<rparr>"
    unfolding concat_scene_idxs_def by (rule loop_only_scene_idxs)
  then show ?thesis by simp
qed

subsection \<open>The loop against the fold of the specification\<close>

lemma foldl_spec_None: "foldl spec_merge_step None parts = None"
  by (induction parts) simp_all

lemma spec_step_Some:
  "merged @ map (\<lambda>v. v + offset) p \<noteq> [] \<Longrightarrow>
   spec_merge_step (Some (merged, offset)) p =
     Some (merged @ map (\<lambda>v. v + offset) p,
           1 + Max (set (merged @ map (\<lambda>v. v + offset) p)))"
  unfolding spec_merge_step.simps Let_def by (rule if_not_P)

lemma spec_step_None:
  "merged @ map (\<lambda>v. v + offset) p = [] \<Longrightarrow>
   spec_merge_step (Some (merged, offset)) p = None"
  unfolding spec_merge_step.simps Let_def by (rule if_P)

lemma foldl_spec_subset:
  "foldl spec_merge_step (Some (merged, offset)) parts = Some (m, off) \<Longrightarrow>
   set merged \<subseteq> set m"
proof (induction parts arbitrary: merged offset)
  case Nil
  then show ?case by simp
next
  case (Cons p ps)
  let ?m = "merged @ map (\<lambda>v. v + offset) p"
  show ?case
  proof (cases "?m = []")
    case True
    with Cons.prems show ?thesis
      by (simp only: foldl_Cons spec_step_None foldl_spec_None) simp
  next
    case False
    from Cons.prems
    have "foldl spec_merge_step (Some (?m, 1 + Max (set ?m))) ps = Some (m, off)"
      unfolding foldl_Cons spec_step_Some[OF False] .
    from Cons.IH[OF this] show ?thesis by auto
  qed
qed

lemma loop_refines_spec:
  "foldl spec_merge_step (Some (scene_idxs self, offset)) parts = Some (m, off) \<Longrightarrow>
   \<forall>v\<in>set m. is_int32 v \<Longrightarrow>
   concat_scene_idxs_loop parts offset self = Inr (self\<lparr>scene_idxs := m\<rparr>)"
proof (induction parts arbitrary: offset self)
  case Nil
  then show ?case by simp
next
  case (Cons p ps)
  let ?m = "scene_idxs self @ map (\<lambda>v. v + offset) p"
  show ?case
  proof (cases "?m = []")
    case True
    with Cons.prems show ?thesis
      by (simp only: foldl_Cons spec_step_None foldl_spec_None) simp
  next
    case False
    from Cons.prems(1)
    have step: "foldl spec_merge_step (Some (?m, 1 + Max (set ?m))) ps = Some (m, off)"
      unfolding foldl_Cons spec_step_Some[OF False] .
    from foldl_spec_subset[OF step] Cons.prems(2) have "\<forall>v\<in>set ?m. is_int32 v" by blast
    then have cast: "map astype_int32 ?m = ?m"
      by (intro map_idI) (simp add: astype_int32_id)
    let ?s = "self\<lparr>scene_idxs := ?m\<rparr>"
    have "foldl spec_merge_step (Some (scene_idxs ?s, Max (set ?m) + 1)) ps = Some (m, off)"
      using step by (simp add: add.commute)
    from Cons.IH[OF this Cons.prems(2)]
    have "concat_scene_idxs_loop ps (Max (set ?m) + 1) ?s = Inr (self\<lparr>scene_idxs := m\<rparr>)"
      by simp
    moreover have "np_max (np_unique ?m) = Inr (Max (set ?m))"
      using False by (simp add: np_max_unique)
    moreover have "concat_scene_idxs_loop (p # ps) offset self =
        (case np_max (np_unique ?m) of Inl e \<Rightarrow> Inl e
         | Inr mx \<Rightarrow> concat_scene_idxs_loop ps (mx + 1) ?s)"
      by (simp only: concat_scene_idxs_loop.simps Let_def cast) simp
    ultimately show ?thesis
      by (simp only: sum.case)
  qed
qed

lemma foldl_spec_Some:
  "merged \<noteq> [] \<Longrightarrow> \<exists>m off. foldl spec_merge_step (Some (merged, offset)) parts = Some (m, off)"
proof (induction parts arbitrary: merged offset)
  case Nil
  then show ?case by simp
next
  case (Cons p ps)
  let ?m = "merged @ map (\<lambda>v. v + offset) p"
  have ne: "?m \<noteq> []" using Cons.prems by simp
  from Cons.IH[OF ne] show ?case
    unfolding foldl_Cons spec_step_Some[OF ne] .
qed

lemma spec_merged_index_None:
  assumes "spec_merged_index parts = None"
  shows "\<exists>rest. parts = [] # rest"
proof (cases parts)
  case Nil
  with assms show ?thesis by (simp add: spec_merged_index_def)
next
  case (Cons p ps)
  show ?thesis
  proof (cases "p = []")
    case True
    with Cons show ?thesis by simp
  next
    case False
    then have ne: "[] @ map (\<lambda>v. v + 0) p \<noteq> []" by simp
    from False have "[] @ map (\<lambda>v. v + 0) p \<noteq> []" by simp
    from foldl_spec_Some[OF this]
    obtain m off where
      "foldl spec_merge_step (Some ([] @ map (\<lambda>v. v + 0) p, 1 + Max (set ([] @ map (\<lambda>v. v + 0) p)))) ps
        = Some (m, off)"
      by blast
    then have "foldl spec_merge_step (Some ([], 0)) (p # ps) = Some (m, off)"
      unfolding foldl_Cons spec_step_Some[OF ne] .
    with assms Cons show ?thesis by (simp add: spec_merged_index_def)
  qed
qed

lemma concat_scene_idxs_empty_first: "concat_scene_idxs ([] # rest) self = Inl ValueError"
  by (simp add: concat_scene_idxs_def np_unique_def)

lemma loop_succeeds_first:
  assumes "one \<noteq> []"
  shows "\<exists>self'. concat_scene_idxs_loop (one # rest) offset self = Inr self'"
proof -
  define m where "m = map astype_int32 (scene_idxs self @ map (\<lambda>x. x + offset) one)"
  have eq: "concat_scene_idxs_loop (one # rest) offset self =
        (case np_max (np_unique m) of Inl e \<Rightarrow> Inl e
         | Inr mx \<Rightarrow> concat_scene_idxs_loop rest (mx + 1) (self\<lparr>scene_idxs := m\<rparr>))"
    unfolding m_def by (simp only: concat_scene_idxs_loop.simps Let_def) simp
  have ne: "m \<noteq> []" using assms by (simp add: m_def)
  then have "scene_idxs (self\<lparr>scene_idxs := m\<rparr>) \<noteq> []" by simp
  from loop_succeeds[OF this] obtain self' where
    "concat_scene_idxs_loop rest (Max (set m) + 1) (self\<lparr>scene_idxs := m\<rparr>) = Inr self'"
    by blast
  moreover have "np_max (np_unique m) = Inr (Max (set m))"
    using ne by (simp add: np_max_unique)
  ultimately show ?thesis by (simp only: eq sum.case) blast
qed

lemma concat_scene_idxs_nonempty_first:
  "\<exists>self'. concat_scene_idxs ((x # xs) # rest) self = Inr self'"
  unfolding concat_scene_idxs_def by (rule loop_succeeds_first) simp

subsection \<open>Claims about the merged sampling index\<close>

text \<open>
  C1. The merged sampling index is the left-to-right fold of the specification: the
  offset starts at 0, is added to every value of a partition before the values are
  appended, and is then set to one plus the maximum of the merged index so far. Whenever
  that fold has a result whose values fit the \<^verbatim>\<open>int32\<close> array the code stores them in,
  \<^verbatim>\<open>concat_scene_idxs\<close> stores exactly that result; where the fold has none (no maximum
  exists) the code raises. Partition A with 3 scenes and index \<open>[0,0,1,2]\<close> followed by
  partition B with 2 scenes and index \<open>[0,1,1]\<close> gives \<open>[0,0,1,2,3,4,4]\<close> and 5 scenes.
  The offset follows the maximum, not the scene count: when A's index is \<open>[0,0,1]\<close>, B
  starts at 2.
\<close>

theorem concat_scene_idxs_is_spec_fold:
  "(\<forall>m. spec_merged_index parts = Some m \<longrightarrow> (\<forall>v\<in>set m. is_int32 v) \<longrightarrow>
        concat_scene_idxs parts self = Inr (self\<lparr>scene_idxs := m\<rparr>))
   \<and> (spec_merged_index parts = None \<longrightarrow> concat_scene_idxs parts self = Inl ValueError)
   \<and> concat_scene_idxs [[0, 0, 1, 2], [0, 1, 1]] self
        = Inr (self\<lparr>scene_idxs := [0, 0, 1, 2, 3, 4, 4]\<rparr>)
   \<and> length (data_infos (concat_data_infos [[a1, a2, a3], [b1, b2]] self)) = 5
   \<and> concat_scene_idxs [[0, 0, 1], [0, 1, 1]] self
        = Inr (self\<lparr>scene_idxs := [0, 0, 1, 2, 3, 3]\<rparr>)"
proof (intro conjI allI impI)
  fix m
  assume spec: "spec_merged_index parts = Some m" and fits: "\<forall>v\<in>set m. is_int32 v"
  from spec obtain off where
    "foldl spec_merge_step (Some (scene_idxs (self\<lparr>scene_idxs := []\<rparr>), 0)) parts = Some (m, off)"
    by (auto simp: spec_merged_index_def)
  from loop_refines_spec[OF this fits]
  show "concat_scene_idxs parts self = Inr (self\<lparr>scene_idxs := m\<rparr>)"
    by (simp add: concat_scene_idxs_def)
next
  assume "spec_merged_index parts = None"
  then obtain rest where "parts = [] # rest"
    using spec_merged_index_None by blast
  then show "concat_scene_idxs parts self = Inl ValueError"
    by (simp add: concat_scene_idxs_empty_first)
next
  show "concat_scene_idxs [[0, 0, 1, 2], [0, 1, 1]] self
        = Inr (self\<lparr>scene_idxs := [0, 0, 1, 2, 3, 4, 4]\<rparr>)"
    by (simp add: concat_scene_idxs_def astype_int32_def np_unique_def)
next
  show "length (data_infos (concat_data_infos [[a1, a2, a3], [b1, b2]] self)) = 5"
    by (simp add: concat_data_infos_def)
next
  show "concat_scene_idxs [[0, 0, 1], [0, 1, 1]] self
        = Inr (self\<lparr>scene_idxs := [0, 0, 1, 2, 3, 3]\<rparr>)"
    by (simp add: concat_scene_idxs_def astype_int32_def np_unique_def)
qed

theorem concat_scene_idxs_is_spec_fold_witness:
  "spec_merged_index [[0, 0, 1, 2], [0, 1, 1]] = Some [0, 0, 1, 2, 3, 4, 4]
   \<and> list_all is_int32 [0, 0, 1, 2, 3, 4, 4]
   \<and> concat_scene_idxs [[0, 0, 1, 2], [0, 1, 1]]
        \<lparr>data_infos = [], scene_idxs = [7], label_weight = NaN, flag = None\<rparr>
      = Inr \<lparr>data_infos = [], scene_idxs = [0, 0, 1, 2, 3, 4, 4], label_weight = NaN, flag = None\<rparr>
   \<and> spec_merged_index [[], [0]] = None
   \<and> concat_scene_idxs [[], [0]]
        \<lparr>data_infos = [], scene_idxs = [7], label_weight = NaN, flag = None\<rparr>
      = Inl ValueError"
proof -
  let ?s = "\<lparr>data_infos = [], scene_idxs = [7], label_weight = NaN, flag = None\<rparr>"
  have a: "spec_merged_index [[0, 0, 1, 2], [0, 1, 1]] = Some [0, 0, 1, 2, 3, 4, 4]"
    by (simp add: spec_merged_index_def)
  have b: "list_all is_int32 [0, 0, 1, 2, 3, 4, 4]"
    by (simp add: is_int32_def)
  have c: "spec_merged_index [[], [0]] = None"
    by (simp add: spec_merged_index_def)
  from concat_scene_idxs_is_spec_fold[of "[[0, 0, 1, 2], [0, 1, 1]]" ?s] a b
  have "concat_scene_idxs [[0, 0, 1, 2], [0, 1, 1]] ?s
        = Inr (?s\<lparr>scene_idxs := [0, 0, 1, 2, 3, 4, 4]\<rparr>)"
    by (simp add: list_all_iff)
  moreover from concat_scene_idxs_is_spec_fold[of "[[], [0]]" ?s] c
  have "concat_scene_idxs [[], [0]] ?s = Inl ValueError"
    by blast
  ultimately show ?thesis using a b c by simp
qed

text \<open>
  C10. The merge fails on an input whose sampling indices are all valid: when the first
  partition's sampling index is empty, \<^verbatim>\<open>concat_scene_idxs\<close> raises while it computes
  the next offset as one plus the maximum of the still empty merged index, so the
  concatenations of the wrapper's constructor raise too. With a non-empty first index the merged index
  is non-empty at every later step and the loop returns.
\<close>

theorem concat_scene_idxs_raises_on_empty_first:
  "valid_index [] infos
   \<and> concat_scene_idxs ([] # rest) self = Inl ValueError
   \<and> concat_attributes (dst\<lparr>scene_idxs := []\<rparr> # dsts) self = Inl ValueError
   \<and> (\<exists>self'. concat_scene_idxs ((x # xs) # rest) self = Inr self')
   \<and> concat_scene_idxs [] self = Inr (self\<lparr>scene_idxs := []\<rparr>)"
proof (intro conjI)
  show "valid_index [] infos" by (simp add: valid_index_def)
  show "concat_scene_idxs ([] # rest) self = Inl ValueError"
    by (rule concat_scene_idxs_empty_first)
  show "concat_attributes (dst\<lparr>scene_idxs := []\<rparr> # dsts) self = Inl ValueError"
    by (simp add: concat_attributes_def concat_scene_idxs_empty_first)
  show "\<exists>self'. concat_scene_idxs ((x # xs) # rest) self = Inr self'"
    by (rule concat_scene_idxs_nonempty_first)
  show "concat_scene_idxs [] self = Inr (self\<lparr>scene_idxs := []\<rparr>)"
    by (simp add: concat_scene_idxs_def)
qed

subsection \<open>Bounds on the merged sampling index\<close>

lemma valid_indexD: "valid_index idx infos \<Longrightarrow> x \<in> set idx \<Longrightarrow> 0 \<le> x \<and> x < int (length infos)"
  by (simp add: valid_index_def list_all_iff)

lemma loop_bound:
  assumes "list_all2 valid_index idxs infos"
    and "\<forall>v\<in>set (scene_idxs self). is_int32 v \<and> v < S"
    and "- (2 ^ 31) \<le> offset" and "offset \<le> S"
    and "concat_scene_idxs_loop idxs offset self = Inr self'"
  shows "\<forall>v\<in>set (scene_idxs self'). v < S + int (length (flatten_infos infos))"
  using assms
proof (induction idxs infos arbitrary: offset self S rule: list_all2_induct)
  case Nil
  then show ?case by simp
next
  case (Cons idx idxs info infos)
  define m where "m = map astype_int32 (scene_idxs self @ map (\<lambda>x. x + offset) idx)"
  from loop_step_Inr[OF Cons.prems(4)]
  have ne: "m \<noteq> []"
    and rest: "concat_scene_idxs_loop idxs (Max (set m) + 1) (self\<lparr>scene_idxs := m\<rparr>) = Inr self'"
    unfolding m_def by simp_all
  let ?S = "S + int (length info)"
  have old: "astype_int32 v < ?S" if "v \<in> set (scene_idxs self)" for v
    using that Cons.prems(1) by (auto simp: astype_int32_id)
  have new: "astype_int32 (x + offset) < ?S" if "x \<in> set idx" for x
  proof -
    from valid_indexD[OF Cons.hyps(1) that] have "0 \<le> x" "x < int (length info)" by auto
    with Cons.prems(2) have "- (2 ^ 31) \<le> x + offset" by linarith
    from astype_int32_le[OF this] \<open>x < int (length info)\<close> Cons.prems(3)
    show ?thesis by linarith
  qed
  have bound: "\<forall>v\<in>set m. is_int32 v \<and> v < ?S"
    unfolding m_def using old new by (auto simp: astype_int32_range)
  have "Max (set m) \<in> set m" using ne by (intro Max_in) simp_all
  with bound have "is_int32 (Max (set m))" "Max (set m) < ?S" by blast+
  then have lo: "- (2 ^ 31) \<le> Max (set m) + 1" and hi: "Max (set m) + 1 \<le> ?S"
    by (simp_all add: is_int32_def)
  have "\<forall>v\<in>set (scene_idxs self'). v < ?S + int (length (flatten_infos infos))"
    by (rule Cons.IH[OF _ lo hi]) (use bound rest in simp_all)
  then show ?case by (simp add: add.assoc)
qed

lemma loop_exact:
  assumes "list_all2 covers_last idxs infos"
    and "\<forall>v\<in>set (scene_idxs self). 0 \<le> v \<and> v < S"
    and "0 \<le> S"
    and "S + int (length (flatten_infos infos)) \<le> 2 ^ 31"
    and "concat_scene_idxs_loop idxs S self = Inr self'"
  shows "idxs \<noteq> [] \<longrightarrow>
           Max (set (scene_idxs self')) = S + int (length (flatten_infos infos)) - 1"
  using assms
proof (induction idxs infos arbitrary: self S rule: list_all2_induct)
  case Nil
  then show ?case by simp
next
  case (Cons idx idxs info infos)
  define m where "m = map astype_int32 (scene_idxs self @ map (\<lambda>x. x + S) idx)"
  from loop_step_Inr[OF Cons.prems(4)]
  have ne: "m \<noteq> []"
    and rest: "concat_scene_idxs_loop idxs (Max (set m) + 1) (self\<lparr>scene_idxs := m\<rparr>) = Inr self'"
    unfolding m_def by simp_all
  let ?S = "S + int (length info)"
  from Cons.hyps(1) have valid: "valid_index idx info"
    and last: "int (length info) - 1 \<in> set idx"
    by (simp_all add: covers_last_def)
  have total: "?S + int (length (flatten_infos infos)) \<le> 2 ^ 31"
    using Cons.prems(3) by simp
  then have S31: "?S \<le> 2 ^ 31" by linarith
  have old: "astype_int32 v = v" if "v \<in> set (scene_idxs self)" for v
    using that Cons.prems(1) S31 by (intro astype_int32_id) (auto simp: is_int32_def)
  have new: "astype_int32 (x + S) = x + S \<and> 0 \<le> x + S \<and> x + S < ?S" if "x \<in> set idx" for x
  proof -
    from valid_indexD[OF valid that] have x: "0 \<le> x" "x < int (length info)" by auto
    have "0 \<le> S" by (rule Cons.prems(2))
    with x S31 have "is_int32 (x + S)" by (simp add: is_int32_def)
    with x \<open>0 \<le> S\<close> show ?thesis by (simp add: astype_int32_id)
  qed
  have m_eq: "m = scene_idxs self @ map (\<lambda>x. x + S) idx"
    unfolding m_def using old new by (simp add: map_idI)
  have last_in: "?S - 1 \<in> set m"
  proof -
    from last have "(int (length info) - 1) + S \<in> set (map (\<lambda>x. x + S) idx)" by force
    then show ?thesis unfolding m_eq by (simp add: algebra_simps)
  qed
  have upper: "v \<le> ?S - 1" if "v \<in> set m" for v
    using that Cons.prems(1) new unfolding m_eq by force
  have mx: "Max (set m) = ?S - 1"
    by (rule Max_eqI) (use last_in upper in simp_all)
  have bound: "\<forall>v\<in>set m. 0 \<le> v \<and> v < ?S"
    using Cons.prems(1) new unfolding m_eq by force
  have S0: "0 \<le> ?S" using Cons.prems(2) by simp
  have rest': "concat_scene_idxs_loop idxs ?S (self\<lparr>scene_idxs := m\<rparr>) = Inr self'"
    using rest mx by simp
  have "Max (set (scene_idxs self')) = ?S + int (length (flatten_infos infos)) - 1"
  proof (cases "idxs = []")
    case True
    with Cons.hyps(2) have "infos = []" by simp
    with True rest' mx show ?thesis by auto
  next
    case False
    have "idxs \<noteq> [] \<longrightarrow>
        Max (set (scene_idxs self')) = ?S + int (length (flatten_infos infos)) - 1"
      by (rule Cons.IH[OF _ S0 total]) (use bound rest' in simp_all)
    with False show ?thesis by simp
  qed
  then show ?case by (simp add: add.assoc)
qed

subsection \<open>The merged scene list\<close>

lemma flatten_infos_concat: "flatten_infos parts = concat parts"
  by (induction parts) simp_all

lemma length_flatten_infos: "length (flatten_infos parts) = sum_list (map length parts)"
  by (simp add: flatten_infos_concat length_concat)

lemma start_of_length: "start_of parts k = length (flatten_infos (take k parts))"
  by (simp add: start_of_def length_flatten_infos)

lemma start_of_Suc:
  "k < length parts \<Longrightarrow> start_of parts (Suc k) = start_of parts k + length (parts ! k)"
  by (simp add: start_of_def take_Suc_conv_app_nth)

lemma flatten_infos_split:
  assumes "k < length parts"
  shows "flatten_infos parts =
    flatten_infos (take k parts) @ parts ! k @ flatten_infos (drop (Suc k) parts)"
proof -
  have "parts = take k parts @ parts ! k # drop (Suc k) parts"
    using assms by (rule id_take_nth_drop)
  then have "concat parts = concat (take k parts @ parts ! k # drop (Suc k) parts)"
    by simp
  then show ?thesis by (simp add: flatten_infos_concat)
qed

lemma flatten_infos_range:
  assumes "k < length parts"
  shows "take (length (parts ! k)) (drop (start_of parts k) (flatten_infos parts)) = parts ! k"
  by (subst flatten_infos_split[OF assms]) (simp add: start_of_length)

lemma flatten_infos_nth:
  assumes "k < length parts" and "i < length (parts ! k)"
  shows "flatten_infos parts ! (start_of parts k + i) = parts ! k ! i"
  by (subst flatten_infos_split[OF assms(1)]) (simp add: start_of_length nth_append assms(2))

subsection \<open>Claims about the merged index and the merged scene list\<close>

text \<open>
  C5. When every partition's sampling index is valid for that partition (every value a
  non-negative offset below the partition's scene count), every value of the merged
  sampling index is below the merged scene count, which is the sum of the partitions'
  scene counts. The bound also holds where the 32-bit cast wraps around.
\<close>

theorem merged_index_below_scene_count:
  assumes "list_all2 valid_index idxs infos"
    and "concat_scene_idxs idxs (concat_data_infos infos self) = Inr self'"
  shows "list_all (\<lambda>v. v < int (length (data_infos self'))) (scene_idxs self')
         \<and> length (data_infos self') = sum_list (map length infos)"
proof -
  let ?s = "concat_data_infos infos self"
  from concat_scene_idxs_only_scene_idxs[OF assms(2)]
  have "data_infos self' = data_infos (?s\<lparr>scene_idxs := scene_idxs self'\<rparr>)" by simp
  then have infos: "data_infos self' = flatten_infos infos"
    by (simp add: concat_data_infos_def)
  have "\<forall>v\<in>set (scene_idxs self'). v < 0 + int (length (flatten_infos infos))"
    by (rule loop_bound[OF assms(1) _ _ _ assms(2)[unfolded concat_scene_idxs_def]]) simp_all
  with infos show ?thesis
    by (simp add: list_all_iff length_flatten_infos)
qed

theorem merged_index_below_scene_count_witness:
  "list_all2 valid_index [[0, 0, 1, 2], [0, 1, 1]]
      [[scene ''Area_1_office_1'', scene ''Area_1_office_2'', scene ''Area_1_hallway_1''],
       [scene ''Area_2_office_1'', scene ''Area_2_hallway_1'']]
   \<and> concat_scene_idxs [[0, 0, 1, 2], [0, 1, 1]]
        (concat_data_infos
          [[scene ''Area_1_office_1'', scene ''Area_1_office_2'', scene ''Area_1_hallway_1''],
           [scene ''Area_2_office_1'', scene ''Area_2_hallway_1'']] unset)
      = Inr (unset\<lparr>data_infos :=
                [scene ''Area_1_office_1'', scene ''Area_1_office_2'', scene ''Area_1_hallway_1'',
                 scene ''Area_2_office_1'', scene ''Area_2_hallway_1''],
              scene_idxs := [0, 0, 1, 2, 3, 4, 4]\<rparr>)
   \<and> list_all (\<lambda>v. v < 5) [0, 0, 1, 2, 3, 4, 4 :: int]"
proof -
  let ?infos = "[[scene ''Area_1_office_1'', scene ''Area_1_office_2'', scene ''Area_1_hallway_1''],
       [scene ''Area_2_office_1'', scene ''Area_2_hallway_1'']]"
  let ?r = "unset\<lparr>data_infos :=
                [scene ''Area_1_office_1'', scene ''Area_1_office_2'', scene ''Area_1_hallway_1'',
                 scene ''Area_2_office_1'', scene ''Area_2_hallway_1''],
              scene_idxs := [0, 0, 1, 2, 3, 4, 4]\<rparr>"
  have a: "list_all2 valid_index [[0, 0, 1, 2], [0, 1, 1]] ?infos"
    by (simp add: valid_index_def)
  have b: "concat_scene_idxs [[0, 0, 1, 2], [0, 1, 1]] (concat_data_infos ?infos unset) = Inr ?r"
    by (simp add: concat_scene_idxs_def concat_data_infos_def astype_int32_def np_unique_def)
  from merged_index_below_scene_count[OF a b]
  have "list_all (\<lambda>v. v < 5) [0, 0, 1, 2, 3, 4, 4 :: int]" by simp
  with a b show ?thesis by blast
qed

text \<open>
  C3, as stated: a counterexample. Partition A has 3 scenes and the valid index
  \<open>[0,0,1]\<close>, which never reaches its last scene; partition B has 2 scenes and the valid
  index \<open>[0,1,1]\<close>. The merged index is \<open>[0,0,1,2,3,3]\<close>: its maximum is 3, the merged
  scene list has 5 records.
\<close>

theorem merged_index_max_counterexample:
  "valid_index [0, 0, 1] [scene ''Area_1_office_1'', scene ''Area_1_office_2'', scene ''Area_1_hallway_1'']
   \<and> valid_index [0, 1, 1] [scene ''Area_2_office_1'', scene ''Area_2_hallway_1'']
   \<and> concat_scene_idxs [[0, 0, 1], [0, 1, 1]]
        (concat_data_infos
          [[scene ''Area_1_office_1'', scene ''Area_1_office_2'', scene ''Area_1_hallway_1''],
           [scene ''Area_2_office_1'', scene ''Area_2_hallway_1'']] unset)
      = Inr (unset\<lparr>data_infos :=
                [scene ''Area_1_office_1'', scene ''Area_1_office_2'', scene ''Area_1_hallway_1'',
                 scene ''Area_2_office_1'', scene ''Area_2_hallway_1''],
              scene_idxs := [0, 0, 1, 2, 3, 3]\<rparr>)
   \<and> Max (set [0, 0, 1, 2, 3, 3 :: int])
      \<noteq> int (length [scene ''Area_1_office_1'', scene ''Area_1_office_2'', scene ''Area_1_hallway_1'',
                       scene ''Area_2_office_1'', scene ''Area_2_hallway_1'']) - 1"
  by (simp add: valid_index_def concat_scene_idxs_def concat_data_infos_def astype_int32_def
      np_unique_def)

text \<open>
  C3, amended. For at least one partition, each with a valid sampling index in which the
  offset of the partition's last scene occurs, and a merged scene count of at most
  \<open>2 ^ 31\<close> (the range of the \<^verbatim>\<open>int32\<close> index), the merge returns, the maximum of the merged
  sampling index is the length of the merged scene list minus 1, and the scenes of
  partition \<open>k\<close> are the slice of the merged list that starts at \<open>start_of infos k\<close>; the
  next partition starts where it ends.
\<close>

theorem merged_index_max_when_last_scene_covered:
  assumes "list_all2 covers_last idxs infos" and "idxs \<noteq> []"
    and "sum_list (map length infos) \<le> 2 ^ 31"
  shows "\<exists>self'. concat_scene_idxs idxs (concat_data_infos infos self) = Inr self'
      \<and> Max (set (scene_idxs self')) = int (length (data_infos self')) - 1
      \<and> (\<forall>k<length infos.
            take (length (infos ! k)) (drop (start_of infos k) (data_infos self')) = infos ! k
            \<and> start_of infos (Suc k) = start_of infos k + length (infos ! k))"
proof -
  let ?s = "concat_data_infos infos self"
  from assms(1,2) obtain idx rest info infos' where
    idxs: "idxs = idx # rest" and infos: "infos = info # infos'" and cl: "covers_last idx info"
    by (cases idxs; cases infos) auto
  from cl have "idx \<noteq> []" by (auto simp: covers_last_def)
  then obtain self' where res: "concat_scene_idxs idxs ?s = Inr self'"
    unfolding idxs concat_scene_idxs_def using loop_succeeds_first by blast
  from concat_scene_idxs_only_scene_idxs[OF res]
  have "data_infos self' = data_infos (?s\<lparr>scene_idxs := scene_idxs self'\<rparr>)" by simp
  then have di: "data_infos self' = flatten_infos infos"
    by (simp add: concat_data_infos_def)
  have "int (sum_list (map length infos)) \<le> int (2 ^ 31)"
    using assms(3) by (simp only: of_nat_le_iff)
  then have total: "0 + int (length (flatten_infos infos)) \<le> 2 ^ 31"
    by (simp add: length_flatten_infos)
  have "idxs \<noteq> [] \<longrightarrow> Max (set (scene_idxs self')) = 0 + int (length (flatten_infos infos)) - 1"
    by (rule loop_exact[OF assms(1) _ _ total res[unfolded concat_scene_idxs_def]]) simp_all
  with assms(2) di have mx: "Max (set (scene_idxs self')) = int (length (data_infos self')) - 1"
    by simp
  have "\<forall>k<length infos.
            take (length (infos ! k)) (drop (start_of infos k) (data_infos self')) = infos ! k
            \<and> start_of infos (Suc k) = start_of infos k + length (infos ! k)"
    unfolding di by (simp add: flatten_infos_range start_of_Suc)
  with res mx show ?thesis by blast
qed

theorem merged_index_max_when_last_scene_covered_witness:
  "list_all2 covers_last [[0, 0, 1, 2], [0, 1, 1]]
      [[scene ''Area_1_office_1'', scene ''Area_1_office_2'', scene ''Area_1_hallway_1''],
       [scene ''Area_2_office_1'', scene ''Area_2_hallway_1'']]
   \<and> sum_list (map length
        [[scene ''Area_1_office_1'', scene ''Area_1_office_2'', scene ''Area_1_hallway_1''],
         [scene ''Area_2_office_1'', scene ''Area_2_hallway_1'']]) = 5
   \<and> concat_scene_idxs [[0, 0, 1, 2], [0, 1, 1]]
        (concat_data_infos
          [[scene ''Area_1_office_1'', scene ''Area_1_office_2'', scene ''Area_1_hallway_1''],
           [scene ''Area_2_office_1'', scene ''Area_2_hallway_1'']] unset)
      = Inr (unset\<lparr>data_infos :=
                [scene ''Area_1_office_1'', scene ''Area_1_office_2'', scene ''Area_1_hallway_1'',
                 scene ''Area_2_office_1'', scene ''Area_2_hallway_1''],
              scene_idxs := [0, 0, 1, 2, 3, 4, 4]\<rparr>)
   \<and> Max (set [0, 0, 1, 2, 3, 4, 4 :: int]) = 5 - 1
   \<and> take 2 (drop 3
        [scene ''Area_1_office_1'', scene ''Area_1_office_2'', scene ''Area_1_hallway_1'',
         scene ''Area_2_office_1'', scene ''Area_2_hallway_1''])
      = [scene ''Area_2_office_1'', scene ''Area_2_hallway_1'']"
proof -
  let ?idxs = "[[0, 0, 1, 2], [0, 1, 1 :: int]]"
  let ?infos = "[[scene ''Area_1_office_1'', scene ''Area_1_office_2'', scene ''Area_1_hallway_1''],
       [scene ''Area_2_office_1'', scene ''Area_2_hallway_1'']]"
  let ?r = "unset\<lparr>data_infos :=
                [scene ''Area_1_office_1'', scene ''Area_1_office_2'', scene ''Area_1_hallway_1'',
                 scene ''Area_2_office_1'', scene ''Area_2_hallway_1''],
              scene_idxs := [0, 0, 1, 2, 3, 4, 4]\<rparr>"
  have a: "list_all2 covers_last ?idxs ?infos"
    by (simp add: covers_last_def valid_index_def)
  have b: "?idxs \<noteq> []" by simp
  have c: "sum_list (map length ?infos) = 5" by simp
  then have c': "sum_list (map length ?infos) \<le> 2 ^ 31" by simp
  have d: "concat_scene_idxs ?idxs (concat_data_infos ?infos unset) = Inr ?r"
    by (simp add: concat_scene_idxs_def concat_data_infos_def astype_int32_def np_unique_def)
  from merged_index_max_when_last_scene_covered[OF a b c', of unset] d
  have e: "Max (set (scene_idxs ?r)) = int (length (data_infos ?r)) - 1
      \<and> (\<forall>k<length ?infos.
            take (length (?infos ! k)) (drop (start_of ?infos k) (data_infos ?r)) = ?infos ! k)"
    by auto
  then have "Max (set [0, 0, 1, 2, 3, 4, 4 :: int]) = 5 - 1" by simp
  moreover from e have "take (length (?infos ! 1)) (drop (start_of ?infos 1) (data_infos ?r)) = ?infos ! 1"
    by (elim conjE allE[where x=1]) simp
  then have "take 2 (drop 3
        [scene ''Area_1_office_1'', scene ''Area_1_office_2'', scene ''Area_1_hallway_1'',
         scene ''Area_2_office_1'', scene ''Area_2_hallway_1''])
      = [scene ''Area_2_office_1'', scene ''Area_2_hallway_1'']"
    by (simp add: start_of_def)
  ultimately show ?thesis using a c d by blast
qed

text \<open>
  C7. The merged scene list is the ordered concatenation of the partitions' lists: its
  length is the sum of the scene counts, and the record at position \<open>start_of parts k + i\<close>
  is record \<open>i\<close> of partition \<open>k\<close>, where the range of partition 0 starts at 0 and each
  range starts where the previous one ends.
\<close>

theorem concat_data_infos_is_concatenation:
  "length (data_infos (concat_data_infos parts self)) = sum_list (map length parts)
   \<and> (\<forall>k<length parts. \<forall>i<length (parts ! k).
         data_infos (concat_data_infos parts self) ! (start_of parts k + i) = parts ! k ! i)
   \<and> start_of parts 0 = 0
   \<and> (\<forall>k<length parts. start_of parts (Suc k) = start_of parts k + length (parts ! k))"
  by (simp add: concat_data_infos_def length_flatten_infos flatten_infos_nth start_of_Suc)
     (simp add: start_of_def)

theorem concat_data_infos_is_concatenation_witness:
  "(1::nat) < length [[scene ''Area_1_office_1'', scene ''Area_1_office_2'', scene ''Area_1_hallway_1''],
                [scene ''Area_2_office_1'', scene ''Area_2_hallway_1'']]
   \<and> (1::nat) < length ([[scene ''Area_1_office_1'', scene ''Area_1_office_2'', scene ''Area_1_hallway_1''],
                [scene ''Area_2_office_1'', scene ''Area_2_hallway_1'']] ! 1)
   \<and> start_of [[scene ''Area_1_office_1'', scene ''Area_1_office_2'', scene ''Area_1_hallway_1''],
                [scene ''Area_2_office_1'', scene ''Area_2_hallway_1'']] 1 = 3
   \<and> data_infos (concat_data_infos
          [[scene ''Area_1_office_1'', scene ''Area_1_office_2'', scene ''Area_1_hallway_1''],
           [scene ''Area_2_office_1'', scene ''Area_2_hallway_1'']] unset) ! (3 + 1)
      = scene ''Area_2_hallway_1''
   \<and> length (data_infos (concat_data_infos
          [[scene ''Area_1_office_1'', scene ''Area_1_office_2'', scene ''Area_1_hallway_1''],
           [scene ''Area_2_office_1'', scene ''Area_2_hallway_1'']] unset)) = 3 + 2"
proof -
  let ?parts = "[[scene ''Area_1_office_1'', scene ''Area_1_office_2'', scene ''Area_1_hallway_1''],
                [scene ''Area_2_office_1'', scene ''Area_2_hallway_1'']]"
  have k: "(1::nat) < length ?parts" by simp
  have i: "(1::nat) < length (?parts ! 1)" by simp
  have s: "start_of ?parts 1 = 3" by (simp add: start_of_def)
  from concat_data_infos_is_concatenation[of ?parts unset]
  have all: "\<forall>k<length ?parts. \<forall>i<length (?parts ! k).
         data_infos (concat_data_infos ?parts unset) ! (start_of ?parts k + i) = ?parts ! k ! i"
    and len: "length (data_infos (concat_data_infos ?parts unset)) = sum_list (map length ?parts)"
    by blast+
  from all k i have "data_infos (concat_data_infos ?parts unset) ! (start_of ?parts 1 + 1) = ?parts ! 1 ! 1"
    by blast
  with s have "data_infos (concat_data_infos ?parts unset) ! (3 + 1) = scene ''Area_2_hallway_1''"
    by simp
  moreover from len have "length (data_infos (concat_data_infos ?parts unset)) = 3 + 2" by simp
  ultimately show ?thesis using k i s by blast
qed

subsection \<open>The merged label weights\<close>

lemma sum_nth_Cons:
  "(\<Sum>i<length (r # rs). f ((r # rs) ! i)) = f r + (\<Sum>i<length rs. f (rs ! i))"
  by (simp add: sum.lessThan_Suc_shift del: sum.lessThan_Suc)

lemma foldl_map2_length:
  "\<forall>r\<in>set rs. length r = length acc \<Longrightarrow>
   length (foldl (\<lambda>acc row. map2 (+) acc row) acc rs) = length acc"
  by (induction rs arbitrary: acc) simp_all

lemma foldl_map2_nth:
  fixes acc :: "real list"
  assumes "\<forall>r\<in>set rs. length r = length acc" and "j < length acc"
  shows "foldl (\<lambda>acc row. map2 (+) acc row) acc rs ! j = acc ! j + (\<Sum>i<length rs. rs ! i ! j)"
  using assms
proof (induction rs arbitrary: acc)
  case Nil
  then show ?case by simp
next
  case (Cons r rs)
  have len: "length (map2 (+) acc r) = length acc" using Cons.prems by simp
  have "foldl (\<lambda>acc row. map2 (+) acc row) (map2 (+) acc r) rs ! j
        = map2 (+) acc r ! j + (\<Sum>i<length rs. rs ! i ! j)"
    by (rule Cons.IH) (use Cons.prems len in simp_all)
  moreover have "map2 (+) acc r ! j = acc ! j + r ! j"
    using Cons.prems by simp
  moreover have "(\<Sum>i<length (r # rs). (r # rs) ! i ! j) = r ! j + (\<Sum>i<length rs. rs ! i ! j)"
    by (rule sum_nth_Cons[where f="\<lambda>row. row ! j"])
  ultimately show ?case by simp
qed

lemma np_mean0_spec:
  assumes "rows \<noteq> []" and "\<forall>r\<in>set rows. length r = L"
  shows "np_mean0 rows = spec_mean rows L"
proof -
  from assms(1) obtain r rs where rows: "rows = r # rs" by (cases rows) auto
  with assms(2) have lens: "\<forall>x\<in>set rs. length x = length r" and L: "length r = L" by simp_all
  have "length (np_mean0 rows) = L"
    using rows lens L by (simp add: foldl_map2_length)
  moreover have "np_mean0 rows ! j = spec_mean rows L ! j" if "j < L" for j
  proof -
    have "foldl (\<lambda>acc row. map2 (+) acc row) r rs ! j = r ! j + (\<Sum>i<length rs. rs ! i ! j)"
      by (rule foldl_map2_nth) (use lens L that in simp_all)
    moreover have "(\<Sum>i<length (r # rs). (r # rs) ! i ! j) = r ! j + (\<Sum>i<length rs. rs ! i ! j)"
      by (rule sum_nth_Cons[where f="\<lambda>row. row ! j"])
    ultimately show ?thesis
      using rows lens L that by (simp add: spec_mean_def foldl_map2_length)
  qed
  moreover have "length (spec_mean rows L) = L" by (simp add: spec_mean_def)
  ultimately show ?thesis by (simp add: list_eq_iff_nth_eq)
qed

lemma vec_rows_map_Vec: "vec_rows (map Vec rows) = Some rows"
  by (induction rows) simp_all

text \<open>
  C6. For \<open>N \<ge> 1\<close> per-partition weight vectors of one length \<open>L\<close> the merged label
  weight is their element-wise arithmetic mean: entry \<open>j\<close> is the sum of the \<open>N\<close> entries
  \<open>j\<close> divided by \<open>N\<close>, whatever the partitions' scene counts. The vectors \<open>[1, 2]\<close> and
  \<open>[3, 0]\<close> merge to \<open>[2, 1]\<close>.
\<close>

theorem concat_label_weight_is_mean:
  "(rows \<noteq> [] \<longrightarrow> list_all (\<lambda>r. length r = L) rows \<longrightarrow>
      concat_label_weight (map Vec rows) self = Inr (self\<lparr>label_weight := Vec (spec_mean rows L)\<rparr>)
      \<and> length (spec_mean rows L) = L
      \<and> (\<forall>j<L. spec_mean rows L ! j = (\<Sum>i<length rows. rows ! i ! j) / real (length rows)))
   \<and> concat_label_weight [Vec [1, 2], Vec [3, 0]] self = Inr (self\<lparr>label_weight := Vec [2, 1]\<rparr>)"
proof (intro conjI impI)
  assume ne: "rows \<noteq> []" and "list_all (\<lambda>r. length r = L) rows"
  then have len: "\<forall>r\<in>set rows. length r = L" by (simp add: list_all_iff)
  from ne obtain r rs where rows: "rows = r # rs" by (cases rows) auto
  have "\<not> list_all (\<lambda>w. w = NaN) (map Vec rows)" using rows by simp
  moreover have "list_all (\<lambda>r. length r = length (hd rows)) rows"
    using len rows by (simp add: list_all_iff)
  ultimately show "concat_label_weight (map Vec rows) self
      = Inr (self\<lparr>label_weight := Vec (spec_mean rows L)\<rparr>)"
    using np_mean0_spec[OF ne len] by (simp add: concat_label_weight_def vec_rows_map_Vec)
next
  show "length (spec_mean rows L) = L" by (simp add: spec_mean_def)
next
  show "\<forall>j<L. spec_mean rows L ! j = (\<Sum>i<length rows. rows ! i ! j) / real (length rows)"
    by (simp add: spec_mean_def)
next
  show "concat_label_weight [Vec [1, 2], Vec [3, 0]] self = Inr (self\<lparr>label_weight := Vec [2, 1]\<rparr>)"
    by (simp add: concat_label_weight_def)
qed

theorem concat_label_weight_is_mean_witness:
  "[[1, 2], [3, 0 :: real]] \<noteq> []
   \<and> list_all (\<lambda>r. length r = 2) [[1, 2], [3, 0 :: real]]
   \<and> spec_mean [[1, 2], [3, 0]] 2 = [2, 1]
   \<and> concat_label_weight (map Vec [[1, 2], [3, 0]]) unset = Inr (unset\<lparr>label_weight := Vec [2, 1]\<rparr>)
   \<and> spec_mean [[1, 2], [3, 0]] 2 ! 0 = (1 + 3) / 2"
proof -
  have a: "[[1, 2], [3, 0 :: real]] \<noteq> []" by simp
  have b: "list_all (\<lambda>r. length r = 2) [[1, 2], [3, 0 :: real]]" by simp
  have c: "spec_mean [[1, 2], [3, 0]] 2 = [2, 1]"
    by (simp add: spec_mean_def upt_rec lessThan_Suc numeral_2_eq_2)
  from concat_label_weight_is_mean[of "[[1, 2], [3, 0]]" 2 unset] a b
  have d: "concat_label_weight (map Vec [[1, 2], [3, 0]]) unset
        = Inr (unset\<lparr>label_weight := Vec (spec_mean [[1, 2], [3, 0]] 2)\<rparr>)"
    and e: "\<forall>j<2. spec_mean [[1, 2], [3, 0]] 2 ! j
        = (\<Sum>i<length [[1, 2], [3, 0 :: real]]. [[1, 2], [3, 0]] ! i ! j) / real (length [[1, 2], [3, 0 :: real]])"
    by blast+
  have "(\<Sum>i<length [[1, 2], [3, 0 :: real]]. [[1, 2], [3, 0]] ! i ! 0) = (1 + 3 :: real)"
    by (simp add: lessThan_Suc numeral_2_eq_2)
  with e[rule_format, of 0] have "spec_mean [[1, 2], [3, 0]] 2 ! 0 = (1 + 3) / 2"
    by simp
  with a b c d show ?thesis by simp
qed

subsection \<open>Claims about the normalisation\<close>

lemma getitem_replicate: "map (list_getitem (replicate N x)) [0..<N] = replicate N (Inr x)"
  by (simp add: list_getitem_def list_eq_iff_nth_eq)

text \<open>
  C8. The checks expand a shared sampling-index or label-weight argument to a list of
  exactly \<open>N\<close> entries: \<^verbatim>\<open>None\<close> becomes \<open>N\<close> copies of \<^verbatim>\<open>None\<close>, a string is repeated
  \<open>N\<close> times, and so is a single index array or weight vector (an array, list or tuple
  whose first entry is a number), unchanged. Indexing the result at \<open>0, \<dots>, N - 1\<close> gives
  every partition that same value. For \<open>N = 3\<close> a single source is handed to all three
  partitions.
\<close>

theorem check_replicates_shared_source:
  "check_scene_idxs PNone N = Inr (PList (replicate N PNone))
   \<and> check_scene_idxs (PStr s) N = Inr (PList (replicate N (PStr s)))
   \<and> check_label_weights PNone N = Inr (PList (replicate N PNone))
   \<and> check_label_weights (PStr s) N = Inr (PList (replicate N (PStr s)))
   \<and> (is_number v \<longrightarrow>
        check_scene_idxs (PArray (v # vs)) N = Inr (PList (replicate N (PArray (v # vs))))
      \<and> check_scene_idxs (PList (v # vs)) N = Inr (PList (replicate N (PList (v # vs))))
      \<and> check_scene_idxs (PTuple (v # vs)) N = Inr (PList (replicate N (PTuple (v # vs))))
      \<and> check_label_weights (PArray (v # vs)) N = Inr (PList (replicate N (PArray (v # vs))))
      \<and> check_label_weights (PList (v # vs)) N = Inr (PList (replicate N (PList (v # vs))))
      \<and> check_label_weights (PTuple (v # vs)) N = Inr (PList (replicate N (PTuple (v # vs)))))
   \<and> py_len (PList (replicate N x)) = Inr N
   \<and> map (py_getitem (PList (replicate N x))) [0..<N] = replicate N (Inr x)
   \<and> check_scene_idxs (PStr s) 3 = Inr (PList [PStr s, PStr s, PStr s])
   \<and> check_scene_idxs (PArray (PInt i # vs)) 3
       = Inr (PList [PArray (PInt i # vs), PArray (PInt i # vs), PArray (PInt i # vs)])"
proof -
  have "map (py_getitem (PList (replicate N x))) [0..<N] = map (list_getitem (replicate N x)) [0..<N]"
    by simp
  then have "map (py_getitem (PList (replicate N x))) [0..<N] = replicate N (Inr x)"
    by (simp only: getitem_replicate)
  moreover have "replicate 3 y = [y, y, y]" for y :: pyval
    by (simp add: numeral_3_eq_3)
  moreover have "\<not> is_str v \<and> \<not> is_list_tuple_ndarray v" if "is_number v"
    using that by (cases v) simp_all
  ultimately show ?thesis
    by (simp add: check_scene_idxs_def check_label_weights_def duplicate_to_list_replicate
        list_getitem_def)
qed

theorem check_replicates_shared_source_witness:
  "is_number (PInt 0)
   \<and> check_scene_idxs (PArray [PInt 0, PInt 0, PInt 1]) 3
       = Inr (PList [PArray [PInt 0, PInt 0, PInt 1], PArray [PInt 0, PInt 0, PInt 1],
                     PArray [PInt 0, PInt 0, PInt 1]])
   \<and> check_label_weights (PList [PFloat 1, PFloat 2]) 2
       = Inr (PList [PList [PFloat 1, PFloat 2], PList [PFloat 1, PFloat 2]])"
proof -
  have a: "is_number (PInt 0)" and b: "is_number (PFloat 1)" by simp_all
  from check_replicates_shared_source[of 3 _ "PInt 0" "[PInt 0, PInt 1]"] a
  have "check_scene_idxs (PArray [PInt 0, PInt 0, PInt 1]) 3
       = Inr (PList (replicate 3 (PArray [PInt 0, PInt 0, PInt 1])))"
    by blast
  moreover from check_replicates_shared_source[of 2 _ "PFloat 1" "[PFloat 2]"] b
  have "check_label_weights (PList [PFloat 1, PFloat 2]) 2
       = Inr (PList (replicate 2 (PList [PFloat 1, PFloat 2])))"
    by blast
  ultimately show ?thesis using a by (simp add: numeral_3_eq_3 numeral_2_eq_2)
qed

text \<open>
  C2, evaluated on the code. With two annotation files, explicit lists of three index
  arrays and three weight vectors pass both checks unchanged, and the constructor builds
  the same composite as for the first two entries alone: the third entry is never read
  and no exception is raised. A list that is too short raises \<^verbatim>\<open>IndexError\<close> from the
  comprehension, after the datasets before the missing entry have been built.
\<close>

theorem explicit_list_of_other_length_is_accepted:
  "check_scene_idxs (PList [PArray [PInt 0], PArray [PInt 0], PArray [PInt 0]]) 2
     = Inr (PList [PArray [PInt 0], PArray [PInt 0], PArray [PInt 0]])
   \<and> check_label_weights (PList [PArray [PFloat 1], PArray [PFloat 1], PArray [PFloat 1]]) 2
     = Inr (PList [PArray [PFloat 1], PArray [PFloat 1], PArray [PFloat 1]])
   \<and> S3DISSegDataset_init c (PList [PStr ''Area_1.pkl'', PStr ''Area_2.pkl'']) test_mode
        (PList [PArray [PInt 0], PArray [PInt 0], PArray [PInt 0]])
        (PList [PArray [PFloat 1], PArray [PFloat 1], PArray [PFloat 1]])
     = S3DISSegDataset_init c (PList [PStr ''Area_1.pkl'', PStr ''Area_2.pkl'']) test_mode
        (PList [PArray [PInt 0], PArray [PInt 0]])
        (PList [PArray [PFloat 1], PArray [PFloat 1]])
   \<and> outcome (S3DISSegDataset_init
        \<lparr>load_annotations = (\<lambda>ann. [scene ''office_1'']),
          base_get_scene_idxs_and_label_weight = (\<lambda>infos test_mode idx w. Inr ([0], [1])),
          group_flag = (\<lambda>self. [])\<rparr>
        (PList [PStr ''Area_1.pkl'', PStr ''Area_2.pkl'']) True
        (PList [PArray [PInt 0], PArray [PInt 0], PArray [PInt 0]])
        (PList [PArray [PFloat 1], PArray [PFloat 1], PArray [PFloat 1]]))
     = Inr \<lparr>data_infos = [scene ''office_1'', scene ''office_1''], scene_idxs = [0, 1],
            label_weight = Vec [1], flag = None\<rparr>
   \<and> S3DISSegDataset_init
        \<lparr>load_annotations = (\<lambda>ann. [scene ''office_1'']),
          base_get_scene_idxs_and_label_weight = (\<lambda>infos test_mode idx w. Inr ([0], [1])),
          group_flag = (\<lambda>self. [])\<rparr>
        (PList [PStr ''Area_1.pkl'', PStr ''Area_2.pkl'']) True
        (PList [PArray [PInt 0]]) (PList [PArray [PFloat 1]])
     = \<lparr>built = [\<lparr>data_infos = [scene ''office_1''], scene_idxs = [0], label_weight = Vec [1],
                   flag = None\<rparr>],
         outcome = Inl IndexError\<rparr>"
proof -
  have upt2: "[0..<2] = [0, Suc 0]" by (simp add: upt_rec numeral_2_eq_2)
  show ?thesis
    by (simp add: check_scene_idxs_def check_label_weights_def list_getitem_def
        S3DISSegDataset_init_def S3DISSegDataset_init_self_def check_ann_files_def upt2
        inner_S3DISSegDataset_init_def Custom3DSegDataset_init_def
        get_scene_idxs_and_label_weight_def merge_datasets_def concat_attributes_def
        concat_data_infos_def
        concat_scene_idxs_def concat_label_weight_def astype_int32_def np_unique_def
        split: sum.splits prod.splits)
qed

subsection \<open>Claims about construction\<close>

lemma inner_init_training_None:
  "inner_S3DISSegDataset_init c ann_file False PNone w = Inl NotImplementedError"
  by (simp add: inner_S3DISSegDataset_init_def Custom3DSegDataset_init_def
      get_scene_idxs_and_label_weight_def)

lemma init_self_training_None:
  "\<exists>e. S3DISSegDataset_init_self c ann_files False PNone ws = Inl e"
  by (simp add: S3DISSegDataset_init_self_def check_scene_idxs_def duplicate_to_list_replicate
      inner_init_training_None list_getitem_def Let_def split: sum.splits)

text \<open>
  C4. In training mode (\<^verbatim>\<open>test_mode\<close> false) without a sampling-index source
  (\<^verbatim>\<open>scene_idxs\<close> is \<^verbatim>\<open>None\<close>) the resolution method raises \<^verbatim>\<open>NotImplementedError\<close>,
  so the construction of a partition dataset fails. The wrapper's constructor then never
  returns an object and has built no inner dataset when it raises; when the annotation
  files and the label weights normalise to lists with a first entry, what it raises is
  that \<^verbatim>\<open>NotImplementedError\<close>. In evaluation mode the method hands \<^verbatim>\<open>None\<close> on to the base
  class, and the partition dataset is built whenever the base class resolves it.
\<close>

theorem training_requires_scene_idxs:
  "get_scene_idxs_and_label_weight c infos False PNone w = Inl NotImplementedError
   \<and> inner_S3DISSegDataset_init c ann_file False PNone w = Inl NotImplementedError
   \<and> built (S3DISSegDataset_init c ann_files False PNone ws) = []
   \<and> (\<exists>e. outcome (S3DISSegDataset_init c ann_files False PNone ws) = Inl e)
   \<and> (\<forall>n a0 ws' w0.
         py_len (check_ann_files ann_files) = Inr n \<longrightarrow>
         py_getitem (check_ann_files ann_files) 0 = Inr a0 \<longrightarrow>
         check_label_weights ws n = Inr ws' \<longrightarrow>
         py_getitem ws' 0 = Inr w0 \<longrightarrow>
         S3DISSegDataset_init c ann_files False PNone ws
           = \<lparr>built = [], outcome = Inl NotImplementedError\<rparr>)
   \<and> get_scene_idxs_and_label_weight c infos True PNone w
       = base_get_scene_idxs_and_label_weight c infos True PNone w
   \<and> (\<forall>idxs wv. base_get_scene_idxs_and_label_weight c (load_annotations c ann_file) True PNone w
                    = Inr (idxs, wv) \<longrightarrow>
         inner_S3DISSegDataset_init c ann_file True PNone w
           = Inr \<lparr>data_infos = load_annotations c ann_file, scene_idxs = idxs,
                  label_weight = Vec wv, flag = None\<rparr>)"
proof (intro conjI allI impI)
  show "get_scene_idxs_and_label_weight c infos False PNone w = Inl NotImplementedError"
    by (simp add: get_scene_idxs_and_label_weight_def)
  show "inner_S3DISSegDataset_init c ann_file False PNone w = Inl NotImplementedError"
    by (rule inner_init_training_None)
  obtain e where e: "S3DISSegDataset_init_self c ann_files False PNone ws = Inl e"
    using init_self_training_None by blast
  then show "built (S3DISSegDataset_init c ann_files False PNone ws) = []"
    by (simp add: S3DISSegDataset_init_def)
  from e show "\<exists>e. outcome (S3DISSegDataset_init c ann_files False PNone ws) = Inl e"
    by (simp add: S3DISSegDataset_init_def)
  show "get_scene_idxs_and_label_weight c infos True PNone w
       = base_get_scene_idxs_and_label_weight c infos True PNone w"
    by (simp add: get_scene_idxs_and_label_weight_def)
next
  fix n a0 ws' w0
  assume n: "py_len (check_ann_files ann_files) = Inr n"
    and a0: "py_getitem (check_ann_files ann_files) 0 = Inr a0"
    and ws': "check_label_weights ws n = Inr ws'"
    and w0: "py_getitem ws' 0 = Inr w0"
  have "0 < n"
    using n a0 by (cases "check_ann_files ann_files") (auto simp: list_getitem_def split: if_splits)
  then have "py_getitem (PList (replicate n PNone)) 0 = Inr PNone"
    by (simp add: list_getitem_def)
  then have "S3DISSegDataset_init_self c ann_files False PNone ws = Inl NotImplementedError"
    using n a0 ws' w0
    by (simp add: S3DISSegDataset_init_self_def check_scene_idxs_def duplicate_to_list_replicate
        inner_init_training_None Let_def)
  then show "S3DISSegDataset_init c ann_files False PNone ws
           = \<lparr>built = [], outcome = Inl NotImplementedError\<rparr>"
    by (simp add: S3DISSegDataset_init_def)
next
  fix idxs wv
  assume "base_get_scene_idxs_and_label_weight c (load_annotations c ann_file) True PNone w
                    = Inr (idxs, wv)"
  then show "inner_S3DISSegDataset_init c ann_file True PNone w
           = Inr \<lparr>data_infos = load_annotations c ann_file, scene_idxs = idxs,
                  label_weight = Vec wv, flag = None\<rparr>"
    by (simp add: inner_S3DISSegDataset_init_def Custom3DSegDataset_init_def
        get_scene_idxs_and_label_weight_def)
qed

theorem training_requires_scene_idxs_witness:
  "py_len (check_ann_files (PList [PStr ''Area_1.pkl'', PStr ''Area_2.pkl''])) = Inr 2
   \<and> py_getitem (check_ann_files (PList [PStr ''Area_1.pkl'', PStr ''Area_2.pkl''])) 0
       = Inr (PStr ''Area_1.pkl'')
   \<and> check_label_weights PNone 2 = Inr (PList [PNone, PNone])
   \<and> py_getitem (PList [PNone, PNone]) 0 = Inr PNone
   \<and> S3DISSegDataset_init
        \<lparr>load_annotations = (\<lambda>ann. [scene ''office_1'']),
          base_get_scene_idxs_and_label_weight = (\<lambda>infos test_mode idx w. Inr ([0], [1])),
          group_flag = (\<lambda>self. [])\<rparr>
        (PList [PStr ''Area_1.pkl'', PStr ''Area_2.pkl'']) False PNone PNone
       = \<lparr>built = [], outcome = Inl NotImplementedError\<rparr>
   \<and> inner_S3DISSegDataset_init
        \<lparr>load_annotations = (\<lambda>ann. [scene ''office_1'']),
          base_get_scene_idxs_and_label_weight = (\<lambda>infos test_mode idx w. Inr ([0], [1])),
          group_flag = (\<lambda>self. [])\<rparr>
        (PStr ''Area_1.pkl'') True PNone PNone
       = Inr \<lparr>data_infos = [scene ''office_1''], scene_idxs = [0], label_weight = Vec [1],
              flag = None\<rparr>"
proof -
  let ?c = "\<lparr>load_annotations = (\<lambda>ann. [scene ''office_1'']),
          base_get_scene_idxs_and_label_weight = (\<lambda>infos test_mode idx w. Inr ([0 :: int], [1 :: real])),
          group_flag = (\<lambda>self. [])\<rparr>"
  let ?A = "PList [PStr ''Area_1.pkl'', PStr ''Area_2.pkl'']"
  have a: "py_len (check_ann_files ?A) = Inr 2" by (simp add: check_ann_files_def)
  have b: "py_getitem (check_ann_files ?A) 0 = Inr (PStr ''Area_1.pkl'')"
    by (simp add: check_ann_files_def list_getitem_def)
  have d: "check_label_weights PNone 2 = Inr (PList [PNone, PNone])"
    by (simp add: check_label_weights_def duplicate_to_list_replicate numeral_2_eq_2)
  have e: "py_getitem (PList [PNone, PNone]) 0 = Inr PNone" by (simp add: list_getitem_def)
  have f: "base_get_scene_idxs_and_label_weight ?c (load_annotations ?c (PStr ''Area_1.pkl'')) True PNone PNone
      = Inr ([0], [1])" by simp
  note t = training_requires_scene_idxs[of ?c _ PNone "PStr ''Area_1.pkl''" ?A PNone]
  from t a b d e have "S3DISSegDataset_init ?c ?A False PNone PNone
       = \<lparr>built = [], outcome = Inl NotImplementedError\<rparr>" by blast
  moreover from t f have "inner_S3DISSegDataset_init ?c (PStr ''Area_1.pkl'') True PNone PNone
       = Inr \<lparr>data_infos = load_annotations ?c (PStr ''Area_1.pkl''), scene_idxs = [0],
              label_weight = Vec [1], flag = None\<rparr>" by blast
  ultimately show ?thesis using a b d e by simp
qed

end
